theory Spec2Isabelle
  imports Complex_Main
begin

section \<open>STED point-spread-function simulation: model of the numeric core\<close>

text \<open>
  The model follows \<^verbatim>\<open>src/start.py\<close>, \<^verbatim>\<open>src/source/psf_functions.py\<close> and
  \<^verbatim>\<open>src/source/resolution_functions.py\<close>.

  Numbers. Python's \<^verbatim>\<open>float\<close> and NumPy's \<^verbatim>\<open>float64\<close> are idealised as
  \<^typ>\<open>real\<close>: there is no rounding, no overflow to infinity, no underflow to zero and
  no NaN in this model. Python's \<^verbatim>\<open>int\<close> is \<^typ>\<open>int\<close>.

  Arrays. A 2D NumPy array is a list of rows. The shape is \<open>(length a, length (hd a))\<close>;
  a well-formed array has rows of one length (\<open>rectangular\<close> below).

  Errors. The modelled code raises \<^verbatim>\<open>ValueError\<close> (its own, in the validation, and
  NumPy's, on a reduction over a zero-size array) and \<^verbatim>\<open>ZeroDivisionError\<close> (a division
  of Python floats by zero); a function that can raise returns \<open>error + 'a\<close> with \<open>Inl\<close>
  for the exception. A division of a NumPy array by zero does not raise: it yields
  \<^verbatim>\<open>inf\<close> or \<^verbatim>\<open>nan\<close>, which the model does not have (HOL's \<open>x / 0\<close> is \<open>0\<close>), so the
  properties of the array functions are stated for non-zero denominators only.
\<close>

subsection \<open>Values and errors\<close>

datatype number = PyFloat real | PyInt int

fun num_real :: "number \<Rightarrow> real" where
  "num_real (PyFloat r) = r"
| "num_real (PyInt k) = real_of_int k"

text \<open>
  The message of a \<^verbatim>\<open>ValueError\<close>, as the pieces of the f-string that builds it: literal
  text and formatted values.
\<close>

datatype fpart = Lit string | Val number

datatype error = ValueError "fpart list" | ZeroDivisionError

type_synonym field = "real list list"

definition rectangular :: "'a list list \<Rightarrow> bool" where
  "rectangular a = list_all (\<lambda>row. length row = length (hd a)) a"

definition same_shape :: "'a list list \<Rightarrow> 'b list list \<Rightarrow> bool" where
  "same_shape a b = (map length a = map length b)"

subsection \<open>\<^verbatim>\<open>start.py\<close>: parameter validation\<close>

text \<open>
  \<^verbatim>\<open>read_config_file\<close> builds the dictionary with exactly these seven keys, five of them
  converted by \<^verbatim>\<open>float\<close> and two by \<^verbatim>\<open>int\<close>; the record is that dictionary.
\<close>

record params =
  lambda_exc :: real
  lambda_sted :: real
  NA :: real
  I_s :: real
  I0_sted :: real
  grid_size :: int
  extent_nm :: int

text \<open>
  \<^verbatim>\<open>validate_parameters\<close>: seven \<^verbatim>\<open>if not (lo <= v <= hi): raise ValueError(...)\<close>
  statements in this order; falling off the end returns \<^verbatim>\<open>None\<close>. The en dash of the
  source's range texts is written \<^verbatim>\<open>-\<close> here.
\<close>

definition validate_parameters :: "params \<Rightarrow> error + unit" where
  "validate_parameters p =
    (if \<not> (400 \<le> lambda_exc p \<and> lambda_exc p \<le> 700) then
       Inl (ValueError [Lit ''Invalid lambda_exc value: '', Val (PyFloat (lambda_exc p)),
                        Lit '' (Expected: 400-700 nm)''])
     else if \<not> (710 \<le> lambda_sted p \<and> lambda_sted p \<le> 850) then
       Inl (ValueError [Lit ''Invalid lambda_sted value: '', Val (PyFloat (lambda_sted p)),
                        Lit '' (Expected: 710-850 nm)''])
     else if \<not> (0.5 \<le> NA p \<and> NA p \<le> 1.49) then
       Inl (ValueError [Lit ''Invalid NA value: '', Val (PyFloat (NA p)),
                        Lit '' (Expected: 0.5-1.49)''])
     else if \<not> (0.1 \<le> I_s p \<and> I_s p \<le> 5.0) then
       Inl (ValueError [Lit ''Invalid I_s value: '', Val (PyFloat (I_s p)),
                        Lit '' (Expected: 0.1-5.0)''])
     else if \<not> (0 \<le> I0_sted p \<and> I0_sted p \<le> 100) then
       Inl (ValueError [Lit ''Invalid I0_sted value: '', Val (PyFloat (I0_sted p)),
                        Lit '' (Expected: 0-100)''])
     else if \<not> (256 \<le> grid_size p \<and> grid_size p \<le> 1000) then
       Inl (ValueError [Lit ''Invalid grid_size value: '', Val (PyInt (grid_size p)),
                        Lit '' (Expected: 256-1000)''])
     else if \<not> (500 \<le> extent_nm p \<and> extent_nm p \<le> 2000) then
       Inl (ValueError [Lit ''Invalid extent_nm value: '', Val (PyInt (extent_nm p)),
                        Lit '' (Expected: 500-2000)''])
     else Inr ())"

text \<open>
  The validation as the specification words it: a table of the seven fields in order, each
  with its closed interval and the text of the expected range, and the first entry whose
  value lies outside its interval.
\<close>

type_synonym range_check = "string \<times> (params \<Rightarrow> number) \<times> real \<times> real \<times> string"

definition spec_range_table :: "range_check list" where
  "spec_range_table =
    [(''lambda_exc'', \<lambda>p. PyFloat (lambda_exc p), 400, 700, ''400-700 nm''),
     (''lambda_sted'', \<lambda>p. PyFloat (lambda_sted p), 710, 850, ''710-850 nm''),
     (''NA'', \<lambda>p. PyFloat (NA p), 0.5, 1.49, ''0.5-1.49''),
     (''I_s'', \<lambda>p. PyFloat (I_s p), 0.1, 5.0, ''0.1-5.0''),
     (''I0_sted'', \<lambda>p. PyFloat (I0_sted p), 0, 100, ''0-100''),
     (''grid_size'', \<lambda>p. PyInt (grid_size p), 256, 1000, ''256-1000''),
     (''extent_nm'', \<lambda>p. PyInt (extent_nm p), 500, 2000, ''500-2000'')]"

fun spec_out_of_range :: "params \<Rightarrow> range_check \<Rightarrow> bool" where
  "spec_out_of_range p (name, get, lo, hi, txt) = (num_real (get p) < lo \<or> hi < num_real (get p))"

fun spec_range_violation :: "params \<Rightarrow> range_check \<Rightarrow> error" where
  "spec_range_violation p (name, get, lo, hi, txt) =
     ValueError [Lit (''Invalid '' @ name @ '' value: ''), Val (get p),
                 Lit ('' (Expected: '' @ txt @ '')'')]"

definition validate_spec :: "params \<Rightarrow> error + unit" where
  "validate_spec p =
    (case find (spec_out_of_range p) spec_range_table of
       None \<Rightarrow> Inr ()
     | Some c \<Rightarrow> Inl (spec_range_violation p c))"

definition spec_all_in_range :: "params \<Rightarrow> bool" where
  "spec_all_in_range p =
    (400 \<le> lambda_exc p \<and> lambda_exc p \<le> 700 \<and>
     710 \<le> lambda_sted p \<and> lambda_sted p \<le> 850 \<and>
     0.5 \<le> NA p \<and> NA p \<le> 1.49 \<and>
     0.1 \<le> I_s p \<and> I_s p \<le> 5.0 \<and>
     0 \<le> I0_sted p \<and> I0_sted p \<le> 100 \<and>
     256 \<le> grid_size p \<and> grid_size p \<le> 1000 \<and>
     500 \<le> extent_nm p \<and> extent_nm p \<le> 2000)"

text \<open>The parameter set of the tests' \<^verbatim>\<open>valid_params()\<close>.\<close>

definition valid_params :: params where
  "valid_params = \<lparr>lambda_exc = 650, lambda_sted = 750, NA = 1.3, I_s = 2, I0_sted = 25,
                    grid_size = 500, extent_nm = 1000\<rparr>"

subsection \<open>\<^verbatim>\<open>psf_functions.py\<close>\<close>

text \<open>
  Each function is one NumPy expression over the coordinate arrays, evaluated element by
  element. The \<open>_at\<close> definitions are the expression at one element; the array functions
  apply it at every position of two arrays of the same shape (as \<^verbatim>\<open>np.meshgrid\<close> returns
  them; broadcasting between different shapes is not modelled).
\<close>

definition elementwise2 :: "(real \<Rightarrow> real \<Rightarrow> real) \<Rightarrow> field \<Rightarrow> field \<Rightarrow> field" where
  "elementwise2 f a b = map2 (map2 f) a b"

text \<open>\<^verbatim>\<open>np.exp(-(x**2 + y**2) / w0**2)\<close>\<close>

definition gaussian_psf_at :: "real \<Rightarrow> real \<Rightarrow> real \<Rightarrow> real" where
  "gaussian_psf_at x y w0 = exp (- (x ^ 2 + y ^ 2) / w0 ^ 2)"

definition gaussian_psf :: "field \<Rightarrow> field \<Rightarrow> real \<Rightarrow> field" where
  "gaussian_psf x y w0 = elementwise2 (\<lambda>a b. gaussian_psf_at a b w0) x y"

text \<open>
  \<^verbatim>\<open>r2 = x**2 + y**2; return (r2 / w**2)**m * np.exp(-r2 / w**2)\<close>, with the keyword
  argument \<^verbatim>\<open>m=1\<close>: \<open>None\<close> is the call that omits it. The exponent is a Python
  \<^verbatim>\<open>int\<close>, so the power is \<^const>\<open>power_int\<close>; it agrees with NumPy's power of a float
  array for \<open>m \<ge> 0\<close> (also \<open>0 ** 0 = 1\<close>) and, for \<open>m < 0\<close>, wherever \<open>r2 \<noteq> 0\<close>.
\<close>

definition laguerre_gaussian_donut_at :: "real \<Rightarrow> real \<Rightarrow> real \<Rightarrow> int option \<Rightarrow> real" where
  "laguerre_gaussian_donut_at x y w m_arg =
    (let m = (case m_arg of None \<Rightarrow> 1 | Some k \<Rightarrow> k);
         r2 = x ^ 2 + y ^ 2
     in power_int (r2 / w ^ 2) m * exp (- r2 / w ^ 2))"

definition laguerre_gaussian_donut :: "field \<Rightarrow> field \<Rightarrow> real \<Rightarrow> int option \<Rightarrow> field" where
  "laguerre_gaussian_donut x y w m_arg =
     elementwise2 (\<lambda>a b. laguerre_gaussian_donut_at a b w m_arg) x y"

text \<open>\<^verbatim>\<open>exc_psf * np.exp(-I0_sted * sted_psf / I_s)\<close>\<close>

definition effective_psf_at :: "real \<Rightarrow> real \<Rightarrow> real \<Rightarrow> real \<Rightarrow> real" where
  "effective_psf_at exc sted Is I0 = exc * exp (- I0 * sted / Is)"

definition effective_psf :: "field \<Rightarrow> field \<Rightarrow> real \<Rightarrow> real \<Rightarrow> field" where
  "effective_psf exc_psf sted_psf Is I0 =
     elementwise2 (\<lambda>e s. effective_psf_at e s Is I0) exc_psf sted_psf"

subsection \<open>\<^verbatim>\<open>resolution_functions.py\<close>\<close>

text \<open>
  \<^verbatim>\<open>return wavelength / (2 * NA)\<close>, on two Python floats: a zero divisor raises
  \<^verbatim>\<open>ZeroDivisionError\<close>.
\<close>

definition diffraction_limit :: "real \<Rightarrow> real \<Rightarrow> error + real" where
  "diffraction_limit wavelength na =
     (if 2 * na = 0 then Inl ZeroDivisionError else Inr (wavelength / (2 * na)))"

text \<open>
  \<^verbatim>\<open>np.max\<close> and \<^verbatim>\<open>np.min\<close> over all elements of an array, given as the list of its
  elements: a zero-size array raises \<^verbatim>\<open>ValueError\<close>.
\<close>

definition np_max :: "'a::linorder list \<Rightarrow> error + 'a" where
  "np_max xs =
    (case xs of
       [] \<Rightarrow> Inl (ValueError
               [Lit ''zero-size array to reduction operation maximum which has no identity''])
     | v # vs \<Rightarrow> Inr (fold max vs v))"

definition np_min :: "'a::linorder list \<Rightarrow> error + 'a" where
  "np_min xs =
    (case xs of
       [] \<Rightarrow> Inl (ValueError
               [Lit ''zero-size array to reduction operation minimum which has no identity''])
     | v # vs \<Rightarrow> Inr (fold min vs v))"

text \<open>
  \<^verbatim>\<open>np.where(cond)\<close> on a 2D boolean array: the positions that hold \<^verbatim>\<open>True\<close>, in row-major
  order, as the pair (row indices, column indices).
\<close>

definition true_positions :: "bool list list \<Rightarrow> (nat \<times> nat) list" where
  "true_positions c =
     concat (map (\<lambda>(i, row). map (\<lambda>(j, b). (i, j)) (filter snd (enumerate 0 row)))
                 (enumerate 0 c))"

definition np_where :: "bool list list \<Rightarrow> nat list \<times> nat list" where
  "np_where c = (map fst (true_positions c), map snd (true_positions c))"

text \<open>
  \<^verbatim>\<open>
  psf_max = np.max(psf)
  half_max = psf_max / 2
  indices = np.where(psf >= half_max)
  fwhm = np.max(indices[0]) - np.min(indices[0])
  return fwhm
  \<close>
\<close>

definition fwhm :: "field \<Rightarrow> error + int" where
  "fwhm psf =
    (case np_max (concat psf) of
       Inl e \<Rightarrow> Inl e
     | Inr psf_max \<Rightarrow>
         (let half_max = psf_max / 2;
              indices = np_where (map (map (\<lambda>v. half_max \<le> v)) psf)
          in case np_max (fst indices) of
               Inl e \<Rightarrow> Inl e
             | Inr hi \<Rightarrow>
                 (case np_min (fst indices) of
                    Inl e \<Rightarrow> Inl e
                  | Inr lo \<Rightarrow> Inr (int hi - int lo))))"

text \<open>
  The positions the specification's wording of \<^verbatim>\<open>fwhm\<close> refers to: all grid positions
  whose value is at least half the maximum of the field.
\<close>

definition spec_qualifying :: "field \<Rightarrow> (nat \<times> nat) set" where
  "spec_qualifying psf =
     {(i, j). i < length psf \<and> j < length (psf ! i) \<and> Max (set (concat psf)) / 2 \<le> psf ! i ! j}"

section \<open>Properties\<close>

subsection \<open>Diffraction limit\<close>

text \<open>
  C8. For all \<open>wavelength > 0\<close> and \<open>NA > 0\<close>, \<open>diffraction_limit wavelength NA\<close> returns
  \<open>wavelength / (2 * NA)\<close> (it does not raise), and that value is strictly positive.
\<close>

theorem diffraction_limit_positive:
  assumes "0 < wavelength" and "0 < na"
  shows "diffraction_limit wavelength na = Inr (wavelength / (2 * na))
         \<and> 0 < wavelength / (2 * na)"
  using assms by (simp add: diffraction_limit_def)

theorem diffraction_limit_positive_witness:
  "(0::real) < 650 \<and> (0::real) < 1.3
   \<and> diffraction_limit 650 1.3 = Inr (650 / (2 * 1.3)) \<and> (0::real) < 650 / (2 * 1.3)
   \<and> diffraction_limit 650 1.3 = Inr 250"
proof -
  have w: "(0::real) < 650" and n: "(0::real) < 1.3" by simp_all
  from w n diffraction_limit_positive [OF w n] show ?thesis by simp
qed

subsection \<open>Element-wise evaluation\<close>

lemma same_shape_lengths:
  assumes "same_shape a b"
  shows "length a = length b" and "i < length a \<Longrightarrow> length (a ! i) = length (b ! i)"
proof -
  show len: "length a = length b"
    using assms unfolding same_shape_def by (metis length_map)
  show "length (a ! i) = length (b ! i)" if "i < length a"
    using assms that len unfolding same_shape_def by (metis nth_map)
qed

lemma elementwise2_nth:
  assumes "same_shape a b" "i < length a" "j < length (a ! i)"
  shows "elementwise2 f a b ! i ! j = f (a ! i ! j) (b ! i ! j)"
  using assms same_shape_lengths [OF assms(1)] by (simp add: elementwise2_def)

subsection \<open>The three expressions at one element\<close>

lemma effective_psf_at_bounds:
  assumes "0 \<le> exc" "0 \<le> depl" "0 < Is" "0 \<le> I0"
  shows "0 \<le> effective_psf_at exc depl Is I0" "effective_psf_at exc depl Is I0 \<le> exc"
proof -
  have "- I0 * depl / Is \<le> 0" using assms by (simp add: divide_nonpos_pos)
  then have "exp (- I0 * depl / Is) \<le> 1" by simp
  then have "exc * exp (- I0 * depl / Is) \<le> exc * 1" using assms(1) by (rule mult_left_mono)
  then show "effective_psf_at exc depl Is I0 \<le> exc" by (simp add: effective_psf_at_def)
  show "0 \<le> effective_psf_at exc depl Is I0" using assms(1) by (simp add: effective_psf_at_def)
qed

lemma effective_psf_at_limit:
  assumes "0 < depl" "0 < Is"
  shows "((\<lambda>I0. effective_psf_at exc depl Is I0) \<longlongrightarrow> 0) at_top"
proof -
  have c: "0 < depl / Is" using assms by simp
  have "LIM I0 at_top. (depl / Is) * I0 :> at_top"
    by (rule filterlim_tendsto_pos_mult_at_top [OF tendsto_const c filterlim_ident])
  then have "LIM I0 at_top. - ((depl / Is) * I0) :> at_bot"
    by (simp add: filterlim_uminus_at_bot)
  then have "((\<lambda>I0. exp (- ((depl / Is) * I0))) \<longlongrightarrow> 0) at_top"
    by (rule filterlim_compose [OF exp_at_bot])
  then have "((\<lambda>I0. exc * exp (- ((depl / Is) * I0))) \<longlongrightarrow> 0) at_top"
    by (rule tendsto_mult_right_zero)
  moreover have "(\<lambda>I0. exc * exp (- ((depl / Is) * I0))) = (\<lambda>I0. effective_psf_at exc depl Is I0)"
    by (rule ext) (simp add: effective_psf_at_def mult.commute)
  ultimately show ?thesis by simp
qed

lemma gaussian_psf_at_mono:
  assumes "0 < w0"
  shows "gaussian_psf_at x' y' w0 < gaussian_psf_at x y w0 \<longleftrightarrow> x ^ 2 + y ^ 2 < x' ^ 2 + y' ^ 2"
proof -
  have "gaussian_psf_at x' y' w0 < gaussian_psf_at x y w0
        \<longleftrightarrow> - (x' ^ 2 + y' ^ 2) / w0 ^ 2 < - (x ^ 2 + y ^ 2) / w0 ^ 2"
    by (simp only: gaussian_psf_at_def exp_less_cancel_iff)
  also have "\<dots> \<longleftrightarrow> - (x' ^ 2 + y' ^ 2) < - (x ^ 2 + y ^ 2)"
    using assms by (simp only: divide_less_cancel) simp
  finally show ?thesis by linarith
qed

lemma gaussian_psf_at_mono_le:
  assumes "0 < w0"
  shows "gaussian_psf_at x' y' w0 \<le> gaussian_psf_at x y w0 \<longleftrightarrow> x ^ 2 + y ^ 2 \<le> x' ^ 2 + y' ^ 2"
proof -
  have "gaussian_psf_at x' y' w0 \<le> gaussian_psf_at x y w0
        \<longleftrightarrow> - (x' ^ 2 + y' ^ 2) / w0 ^ 2 \<le> - (x ^ 2 + y ^ 2) / w0 ^ 2"
    by (simp only: gaussian_psf_at_def exp_le_cancel_iff)
  also have "\<dots> \<longleftrightarrow> - (x' ^ 2 + y' ^ 2) \<le> - (x ^ 2 + y ^ 2)"
    using assms by (simp only: divide_le_cancel) simp
  finally show ?thesis by linarith
qed

lemma gaussian_psf_at_waist:
  assumes "0 < w0" "sqrt (x ^ 2 + y ^ 2) = w0"
  shows "gaussian_psf_at x y w0 = 1 / exp 1"
proof -
  have "x ^ 2 + y ^ 2 = w0 ^ 2" using assms
    by (metis add_nonneg_nonneg real_sqrt_pow2 zero_le_power2)
  then show ?thesis using assms(1) by (simp add: gaussian_psf_at_def exp_minus' )
qed

lemma donut_at_origin:
  assumes "m \<noteq> 0"
  shows "laguerre_gaussian_donut_at 0 0 w (Some m) = 0"
  using assms by (simp add: laguerre_gaussian_donut_at_def)

lemma donut_at_pos:
  assumes "0 < w" "x \<noteq> 0 \<or> y \<noteq> 0"
  shows "0 < laguerre_gaussian_donut_at x y w (Some m)"
proof -
  have "0 < x ^ 2 + y ^ 2" using assms(2) by (metis sum_power2_gt_zero_iff)
  then have "0 < (x ^ 2 + y ^ 2) / w ^ 2" using assms(1) by simp
  then show ?thesis by (simp add: laguerre_gaussian_donut_at_def Let_def)
qed

lemma donut_at_formula:
  assumes "1 \<le> m"
  shows "laguerre_gaussian_donut_at x y w (Some m) = ((x ^ 2 + y ^ 2) / w ^ 2) ^ nat m * exp (- (x ^ 2 + y ^ 2) / w ^ 2)"
  using assms by (simp only: laguerre_gaussian_donut_at_def Let_def power_int_def option.case) simp

lemma donut_default: "laguerre_gaussian_donut x y w None = laguerre_gaussian_donut x y w (Some 1)"
  by (simp add: laguerre_gaussian_donut_def laguerre_gaussian_donut_at_def)


subsection \<open>Excitation PSF\<close>

text \<open>
  C5. For every coordinate pair \<open>(x, y)\<close> and every \<open>w0 > 0\<close>, the excitation PSF equals
  \<open>exp (- (x\<^sup>2 + y\<^sup>2) / w0\<^sup>2)\<close>; its value at the origin is 1, it is monotonically
  decreasing in the radius \<open>sqrt (x\<^sup>2 + y\<^sup>2)\<close> (strictly, and hence also weakly), and at
  radial distance \<open>w0\<close> its value is \<open>1 / e\<close>. The coordinate pairs are the elements at a
  position \<open>(i, j)\<close> of the two coordinate arrays; monotonicity compares two positions.
\<close>

theorem gaussian_psf_profile:
  assumes "0 < w0" and "same_shape x y" and "i < length x" and "j < length (x ! i)"
  shows "gaussian_psf x y w0 ! i ! j = exp (- ((x ! i ! j) ^ 2 + (y ! i ! j) ^ 2) / w0 ^ 2)
    \<and> (x ! i ! j = 0 \<and> y ! i ! j = 0 \<longrightarrow> gaussian_psf x y w0 ! i ! j = 1)
    \<and> (sqrt ((x ! i ! j) ^ 2 + (y ! i ! j) ^ 2) = w0 \<longrightarrow> gaussian_psf x y w0 ! i ! j = 1 / exp 1)
    \<and> (\<forall>k l. k < length x \<and> l < length (x ! k)
          \<and> sqrt ((x ! i ! j) ^ 2 + (y ! i ! j) ^ 2) < sqrt ((x ! k ! l) ^ 2 + (y ! k ! l) ^ 2)
          \<longrightarrow> gaussian_psf x y w0 ! k ! l < gaussian_psf x y w0 ! i ! j)
    \<and> (\<forall>k l. k < length x \<and> l < length (x ! k)
          \<and> sqrt ((x ! i ! j) ^ 2 + (y ! i ! j) ^ 2) \<le> sqrt ((x ! k ! l) ^ 2 + (y ! k ! l) ^ 2)
          \<longrightarrow> gaussian_psf x y w0 ! k ! l \<le> gaussian_psf x y w0 ! i ! j)"
proof -
  have at: "gaussian_psf x y w0 ! k ! l = gaussian_psf_at (x ! k ! l) (y ! k ! l) w0"
    if "k < length x" "l < length (x ! k)" for k l
    unfolding gaussian_psf_def using assms(2) that by (rule elementwise2_nth)
  have here: "gaussian_psf x y w0 ! i ! j = gaussian_psf_at (x ! i ! j) (y ! i ! j) w0"
    using assms(3,4) by (rule at)
  have formula: "gaussian_psf x y w0 ! i ! j = exp (- ((x ! i ! j) ^ 2 + (y ! i ! j) ^ 2) / w0 ^ 2)"
    by (simp only: here gaussian_psf_at_def)
  have origin: "x ! i ! j = 0 \<and> y ! i ! j = 0 \<longrightarrow> gaussian_psf x y w0 ! i ! j = 1"
    by (simp add: here gaussian_psf_at_def)
  have waist: "sqrt ((x ! i ! j) ^ 2 + (y ! i ! j) ^ 2) = w0 \<longrightarrow> gaussian_psf x y w0 ! i ! j = 1 / exp 1"
    using gaussian_psf_at_waist [OF assms(1)] by (simp only: here) blast
  have strict: "gaussian_psf x y w0 ! k ! l < gaussian_psf x y w0 ! i ! j"
    if "k < length x" "l < length (x ! k)"
       "sqrt ((x ! i ! j) ^ 2 + (y ! i ! j) ^ 2) < sqrt ((x ! k ! l) ^ 2 + (y ! k ! l) ^ 2)" for k l
    using that(3) by (simp only: here at [OF that(1,2)] gaussian_psf_at_mono [OF assms(1)] real_sqrt_less_iff)
  have weak: "gaussian_psf x y w0 ! k ! l \<le> gaussian_psf x y w0 ! i ! j"
    if "k < length x" "l < length (x ! k)"
       "sqrt ((x ! i ! j) ^ 2 + (y ! i ! j) ^ 2) \<le> sqrt ((x ! k ! l) ^ 2 + (y ! k ! l) ^ 2)" for k l
    using that(3) by (simp only: here at [OF that(1,2)] gaussian_psf_at_mono_le [OF assms(1)] real_sqrt_le_iff)
  show ?thesis using formula origin waist strict weak by blast
qed

theorem gaussian_psf_profile_witness:
  "(0::real) < 1 \<and> same_shape [[-1, 0, 1 :: real]] [[0, 0, 0 :: real]]
   \<and> gaussian_psf [[-1, 0, 1]] [[0, 0, 0]] 1 ! 0 ! 1 = 1
   \<and> gaussian_psf [[-1, 0, 1]] [[0, 0, 0]] 1 ! 0 ! 0 = 1 / exp 1
   \<and> gaussian_psf [[-1, 0, 1]] [[0, 0, 0]] 1 ! 0 ! 2 < gaussian_psf [[-1, 0, 1]] [[0, 0, 0]] 1 ! 0 ! 1"
proof -
  have w: "(0::real) < 1" by simp
  have shape: "same_shape [[-1, 0, 1 :: real]] [[0, 0, 0 :: real]]"
    by (simp add: same_shape_def)
  have row: "0 < length [[-1, 0, 1 :: real]]" by simp
  have col0: "0 < length ([[-1, 0, 1 :: real]] ! 0)" by simp
  have col1: "1 < length ([[-1, 0, 1 :: real]] ! 0)" by simp
  note centre = gaussian_psf_profile [OF w shape row col1]
  note edge = gaussian_psf_profile [OF w shape row col0]
  have v1: "gaussian_psf [[-1, 0, 1]] [[0, 0, 0]] 1 ! 0 ! 1 = 1"
    using centre by simp
  have v0: "gaussian_psf [[-1, 0, 1]] [[0, 0, 0]] 1 ! 0 ! 0 = 1 / exp 1"
    using edge by simp
  have "0 < length [[-1, 0, 1 :: real]] \<and> 2 < length ([[-1, 0, 1 :: real]] ! 0)
        \<and> sqrt (([[-1, 0, 1 :: real]] ! 0 ! 1) ^ 2 + ([[0, 0, 0 :: real]] ! 0 ! 1) ^ 2)
            < sqrt (([[-1, 0, 1 :: real]] ! 0 ! 2) ^ 2 + ([[0, 0, 0 :: real]] ! 0 ! 2) ^ 2)
        \<longrightarrow> gaussian_psf [[-1, 0, 1]] [[0, 0, 0]] 1 ! 0 ! 2
            < gaussian_psf [[-1, 0, 1]] [[0, 0, 0]] 1 ! 0 ! 1"
    using centre by blast
  then have v2: "gaussian_psf [[-1, 0, 1]] [[0, 0, 0]] 1 ! 0 ! 2
                 < gaussian_psf [[-1, 0, 1]] [[0, 0, 0]] 1 ! 0 ! 1"
    by simp
  from w shape v1 v0 v2 show ?thesis by blast
qed

subsection \<open>Depletion PSF\<close>

text \<open>
  C6. For every coordinate pair \<open>(x, y)\<close>, every \<open>w > 0\<close> and every integer \<open>m \<ge> 1\<close>, the
  depletion PSF equals \<open>(r2 / w\<^sup>2)\<^sup>m * exp (- r2 / w\<^sup>2)\<close> with \<open>r2 = x\<^sup>2 + y\<^sup>2\<close>; it is 0
  at the origin and strictly positive at every point with nonzero radius, and \<open>m\<close> is 1
  when the argument is omitted.
\<close>

theorem depletion_psf_profile:
  assumes "0 < w" and "1 \<le> m" and "same_shape x y" and "i < length x" and "j < length (x ! i)"
  shows "laguerre_gaussian_donut x y w (Some m) ! i ! j
           = (((x ! i ! j) ^ 2 + (y ! i ! j) ^ 2) / w ^ 2) ^ nat m
             * exp (- ((x ! i ! j) ^ 2 + (y ! i ! j) ^ 2) / w ^ 2)
    \<and> (x ! i ! j = 0 \<and> y ! i ! j = 0 \<longrightarrow> laguerre_gaussian_donut x y w (Some m) ! i ! j = 0)
    \<and> (sqrt ((x ! i ! j) ^ 2 + (y ! i ! j) ^ 2) \<noteq> 0
         \<longrightarrow> 0 < laguerre_gaussian_donut x y w (Some m) ! i ! j)
    \<and> laguerre_gaussian_donut x y w None = laguerre_gaussian_donut x y w (Some 1)"
proof -
  have here: "laguerre_gaussian_donut x y w (Some m) ! i ! j
              = laguerre_gaussian_donut_at (x ! i ! j) (y ! i ! j) w (Some m)"
    unfolding laguerre_gaussian_donut_def using assms(3,4,5) by (rule elementwise2_nth)
  have formula: "laguerre_gaussian_donut x y w (Some m) ! i ! j
           = (((x ! i ! j) ^ 2 + (y ! i ! j) ^ 2) / w ^ 2) ^ nat m
             * exp (- ((x ! i ! j) ^ 2 + (y ! i ! j) ^ 2) / w ^ 2)"
    by (simp only: here donut_at_formula [OF assms(2)])
  have origin: "x ! i ! j = 0 \<and> y ! i ! j = 0 \<longrightarrow> laguerre_gaussian_donut x y w (Some m) ! i ! j = 0"
    using assms(2) donut_at_origin [of m w] by (simp add: here)
  have ring: "sqrt ((x ! i ! j) ^ 2 + (y ! i ! j) ^ 2) \<noteq> 0
         \<longrightarrow> 0 < laguerre_gaussian_donut x y w (Some m) ! i ! j"
  proof
    assume "sqrt ((x ! i ! j) ^ 2 + (y ! i ! j) ^ 2) \<noteq> 0"
    then have "x ! i ! j \<noteq> 0 \<or> y ! i ! j \<noteq> 0" by auto
    with assms(1) show "0 < laguerre_gaussian_donut x y w (Some m) ! i ! j"
      by (simp only: here donut_at_pos)
  qed
  show ?thesis using formula origin ring donut_default by blast
qed

theorem depletion_psf_profile_witness:
  "(0::real) < 1 \<and> (1::int) \<le> 1 \<and> same_shape [[-1, 0, 1 :: real]] [[0, 0, 0 :: real]]
   \<and> laguerre_gaussian_donut [[-1, 0, 1]] [[0, 0, 0]] 1 (Some 1) ! 0 ! 1 = 0
   \<and> laguerre_gaussian_donut [[-1, 0, 1]] [[0, 0, 0]] 1 (Some 1) ! 0 ! 2 = exp (- 1)
   \<and> 0 < laguerre_gaussian_donut [[-1, 0, 1]] [[0, 0, 0]] 1 (Some 1) ! 0 ! 2
   \<and> laguerre_gaussian_donut [[-1, 0, 1]] [[0, 0, 0]] 1 None
       = laguerre_gaussian_donut [[-1, 0, 1]] [[0, 0, 0]] 1 (Some 1)"
proof -
  have shape: "same_shape [[-1, 0, 1 :: real]] [[0, 0, 0 :: real]]"
    by (simp add: same_shape_def)
  have centre: "laguerre_gaussian_donut [[-1, 0, 1]] [[0, 0, 0]] 1 (Some 1) ! 0 ! 1 = 0"
    using depletion_psf_profile [of 1 1 "[[-1, 0, 1]]" "[[0, 0, 0]]" 0 1] shape by simp
  have ring: "laguerre_gaussian_donut [[-1, 0, 1]] [[0, 0, 0]] 1 (Some 1) ! 0 ! 2 = exp (- 1)
      \<and> 0 < laguerre_gaussian_donut [[-1, 0, 1]] [[0, 0, 0]] 1 (Some 1) ! 0 ! 2
      \<and> laguerre_gaussian_donut [[-1, 0, 1]] [[0, 0, 0]] 1 None
          = laguerre_gaussian_donut [[-1, 0, 1]] [[0, 0, 0]] 1 (Some 1)"
    using depletion_psf_profile [of 1 1 "[[-1, 0, 1]]" "[[0, 0, 0]]" 0 2] shape by simp
  from shape centre ring show ?thesis by simp
qed


subsection \<open>Effective PSF\<close>

text \<open>
  C7. For \<open>I_s > 0\<close> the effective PSF equals \<open>exc * exp (- I0_sted * depl / I_s)\<close> at
  every position; where \<open>depl = 0\<close> it equals the excitation PSF exactly, and where
  \<open>depl > 0\<close> it tends to 0 as \<open>I0_sted\<close> grows without bound. (The claim's \<open>depl \<ge> 0\<close>
  and \<open>I0_sted \<ge> 0\<close> are not needed.)
\<close>

theorem effective_psf_depletion:
  assumes "0 < Is" and "same_shape exc depl" and "i < length exc" and "j < length (exc ! i)"
  shows "effective_psf exc depl Is I0 ! i ! j = exc ! i ! j * exp (- I0 * (depl ! i ! j) / Is)
    \<and> (depl ! i ! j = 0 \<longrightarrow> effective_psf exc depl Is I0 ! i ! j = exc ! i ! j)
    \<and> (0 < depl ! i ! j \<longrightarrow> ((\<lambda>I. effective_psf exc depl Is I ! i ! j) \<longlongrightarrow> 0) at_top)"
proof -
  have here: "effective_psf exc depl Is I ! i ! j = effective_psf_at (exc ! i ! j) (depl ! i ! j) Is I"
    for I
    unfolding effective_psf_def using assms(2,3,4) by (rule elementwise2_nth)
  have formula: "effective_psf exc depl Is I0 ! i ! j = exc ! i ! j * exp (- I0 * (depl ! i ! j) / Is)"
    by (simp only: here effective_psf_at_def)
  have dark: "depl ! i ! j = 0 \<longrightarrow> effective_psf exc depl Is I0 ! i ! j = exc ! i ! j"
    by (simp add: here effective_psf_at_def)
  have saturate: "0 < depl ! i ! j
      \<longrightarrow> ((\<lambda>I. effective_psf exc depl Is I ! i ! j) \<longlongrightarrow> 0) at_top"
    using effective_psf_at_limit [OF _ assms(1)] by (simp only: here) blast
  from formula dark saturate show ?thesis by blast
qed

theorem effective_psf_depletion_witness:
  "(0::real) < 2 \<and> same_shape [[1, 1 :: real]] [[0, 1 :: real]]
   \<and> effective_psf [[1, 1]] [[0, 1]] 2 25 ! 0 ! 0 = 1
   \<and> effective_psf [[1, 1]] [[0, 1]] 2 25 ! 0 ! 1 = exp (- 25 / 2)
   \<and> ((\<lambda>I. effective_psf [[1, 1]] [[0, 1]] 2 I ! 0 ! 1) \<longlongrightarrow> 0) at_top"
proof -
  have s: "(0::real) < 2" by simp
  have shape: "same_shape [[1, 1 :: real]] [[0, 1 :: real]]"
    by (simp add: same_shape_def)
  have row: "0 < length [[1, 1 :: real]]" by simp
  have col0: "0 < length ([[1, 1 :: real]] ! 0)" by simp
  have col1: "1 < length ([[1, 1 :: real]] ! 0)" by simp
  have v0: "effective_psf [[1, 1]] [[0, 1]] 2 25 ! 0 ! 0 = 1"
    using effective_psf_depletion [OF s shape row col0, of 25] by simp
  have v1: "effective_psf [[1, 1]] [[0, 1]] 2 25 ! 0 ! 1 = exp (- 25 / 2)"
    using effective_psf_depletion [OF s shape row col1, of 25] by simp
  have lim: "((\<lambda>I. effective_psf [[1, 1]] [[0, 1]] 2 I ! 0 ! 1) \<longlongrightarrow> 0) at_top"
    using effective_psf_depletion [OF s shape row col1, of 25] by simp
  from s shape v0 v1 lim show ?thesis by blast
qed

text \<open>
  C10. For \<open>exc \<ge> 0\<close>, \<open>depl \<ge> 0\<close>, \<open>I_s > 0\<close> and \<open>I0_sted \<ge> 0\<close>, the effective PSF is
  non-negative and at most \<open>exc\<close> at every position: depletion never amplifies the
  excitation signal.
\<close>

theorem effective_psf_never_amplifies:
  assumes "0 \<le> exc ! i ! j" and "0 \<le> depl ! i ! j" and "0 < Is" and "0 \<le> I0"
    and "same_shape exc depl" and "i < length exc" and "j < length (exc ! i)"
  shows "0 \<le> effective_psf exc depl Is I0 ! i ! j
       \<and> effective_psf exc depl Is I0 ! i ! j \<le> exc ! i ! j"
proof -
  have here: "effective_psf exc depl Is I0 ! i ! j
              = effective_psf_at (exc ! i ! j) (depl ! i ! j) Is I0"
    unfolding effective_psf_def using assms(5,6,7) by (rule elementwise2_nth)
  show ?thesis
    using effective_psf_at_bounds [OF assms(1,2,3,4)] by (simp only: here)
qed

theorem effective_psf_never_amplifies_witness:
  "same_shape [[1 / 2 :: real]] [[1 :: real]]
   \<and> effective_psf [[1 / 2]] [[1]] 2 25 ! 0 ! 0 = exp (- 25 / 2) / 2
   \<and> 0 \<le> effective_psf [[1 / 2]] [[1]] 2 25 ! 0 ! 0
   \<and> effective_psf [[1 / 2]] [[1]] 2 25 ! 0 ! 0 \<le> 1 / 2"
proof -
  have shape: "same_shape [[1 / 2 :: real]] [[1 :: real]]"
    by (simp add: same_shape_def)
  have v: "effective_psf [[1 / 2]] [[1]] 2 25 ! 0 ! 0 = exp (- 25 / 2) / 2"
    by (simp add: effective_psf_def elementwise2_def effective_psf_at_def)
  have b: "0 \<le> effective_psf [[1 / 2]] [[1]] 2 25 ! 0 ! 0
           \<and> effective_psf [[1 / 2]] [[1]] 2 25 ! 0 ! 0 \<le> [[1 / 2]] ! 0 ! 0"
    by (rule effective_psf_never_amplifies) (simp_all add: shape)
  from shape v b show ?thesis by simp
qed

subsection \<open>Parameter validation\<close>

lemma validate_parameters_accepts_iff: "validate_parameters p = Inr () \<longleftrightarrow> spec_all_in_range p"
proof
  assume "validate_parameters p = Inr ()"
  then show "spec_all_in_range p"
    unfolding validate_parameters_def spec_all_in_range_def
    by (simp split: if_splits)
next
  assume "spec_all_in_range p"
  then show "validate_parameters p = Inr ()"
    unfolding validate_parameters_def spec_all_in_range_def
    by simp
qed

lemma validate_parameters_refines: "validate_parameters p = validate_spec p"
  by (simp add: validate_parameters_def validate_spec_def spec_range_table_def not_le not_less)

text \<open>
  C3. \<open>validate_parameters\<close> succeeds exactly when all seven fields lie in their closed
  intervals (boundary values included); otherwise it raises the error that names the first
  out-of-range field in the order \<open>lambda_exc\<close>, \<open>lambda_sted\<close>, \<open>NA\<close>, \<open>I_s\<close>,
  \<open>I0_sted\<close>, \<open>grid_size\<close>, \<open>extent_nm\<close>, with the offending value and the expected
  range: it agrees with \<open>validate_spec\<close>, the first violated entry of \<open>spec_range_table\<close>.
\<close>

theorem validate_parameters_ranges:
  "(validate_parameters p = Inr () \<longleftrightarrow> spec_all_in_range p)
   \<and> validate_parameters p = validate_spec p"
  using validate_parameters_accepts_iff validate_parameters_refines by blast

theorem validate_parameters_ranges_witness:
  "validate_parameters valid_params = Inr ()
   \<and> validate_parameters (valid_params\<lparr>NA := 0.5, grid_size := 256, extent_nm := 2000\<rparr>) = Inr ()
   \<and> validate_parameters (valid_params\<lparr>NA := 1.49, grid_size := 1000, extent_nm := 500\<rparr>) = Inr ()
   \<and> validate_parameters (valid_params\<lparr>NA := 0.4, grid_size := 1001\<rparr>)
       = Inl (ValueError [Lit ''Invalid NA value: '', Val (PyFloat 0.4),
                          Lit '' (Expected: 0.5-1.49)''])
   \<and> validate_parameters (valid_params\<lparr>extent_nm := 2001\<rparr>)
       = Inl (ValueError [Lit ''Invalid extent_nm value: '', Val (PyInt 2001),
                          Lit '' (Expected: 500-2000)''])"
proof -
  have a: "validate_parameters valid_params = Inr ()"
    using validate_parameters_ranges [of valid_params]
    by (simp add: spec_all_in_range_def valid_params_def)
  have b: "validate_parameters (valid_params\<lparr>NA := 0.5, grid_size := 256, extent_nm := 2000\<rparr>) = Inr ()"
    using validate_parameters_ranges [of "valid_params\<lparr>NA := 0.5, grid_size := 256, extent_nm := 2000\<rparr>"]
    by (simp add: spec_all_in_range_def valid_params_def)
  have c: "validate_parameters (valid_params\<lparr>NA := 1.49, grid_size := 1000, extent_nm := 500\<rparr>) = Inr ()"
    using validate_parameters_ranges [of "valid_params\<lparr>NA := 1.49, grid_size := 1000, extent_nm := 500\<rparr>"]
    by (simp add: spec_all_in_range_def valid_params_def)
  have d: "validate_parameters (valid_params\<lparr>NA := 0.4, grid_size := 1001\<rparr>)
       = Inl (ValueError [Lit ''Invalid NA value: '', Val (PyFloat 0.4),
                          Lit '' (Expected: 0.5-1.49)''])"
    using validate_parameters_ranges [of "valid_params\<lparr>NA := 0.4, grid_size := 1001\<rparr>"]
    by (simp add: validate_spec_def spec_range_table_def valid_params_def)
  have e: "validate_parameters (valid_params\<lparr>extent_nm := 2001\<rparr>)
       = Inl (ValueError [Lit ''Invalid extent_nm value: '', Val (PyInt 2001),
                          Lit '' (Expected: 500-2000)''])"
    using validate_parameters_ranges [of "valid_params\<lparr>extent_nm := 2001\<rparr>"]
    by (simp add: validate_spec_def spec_range_table_def valid_params_def)
  from a b c d e show ?thesis by blast
qed

text \<open>
  C9. Every parameter set accepted by \<open>validate_parameters\<close> has
  \<open>lambda_sted > lambda_exc\<close>: the two closed ranges are disjoint.
\<close>

theorem accepted_wavelengths_ordered:
  assumes "validate_parameters p = Inr ()"
  shows "lambda_exc p < lambda_sted p"
proof -
  have "lambda_exc p \<le> 700" and "710 \<le> lambda_sted p"
    using assms by (simp_all add: validate_parameters_def split: if_splits)
  then show ?thesis by linarith
qed

theorem accepted_wavelengths_ordered_witness:
  "validate_parameters valid_params = Inr () \<and> lambda_exc valid_params < lambda_sted valid_params"
proof -
  have ok: "validate_parameters valid_params = Inr ()"
    by (simp add: validate_parameters_def valid_params_def)
  from ok accepted_wavelengths_ordered [OF ok] show ?thesis by blast
qed

subsection \<open>Full width at half maximum\<close>

lemma np_max_Max:
  assumes "xs \<noteq> []"
  shows "np_max xs = Inr (Max (set xs))"
proof (cases xs)
  case Nil
  with assms show ?thesis by simp
next
  case (Cons v vs)
  have "fold max vs v = Max (set (v # vs))" by (rule Max.set_eq_fold [symmetric])
  then show ?thesis by (simp only: Cons np_max_def list.case)
qed

lemma np_min_Min:
  assumes "xs \<noteq> []"
  shows "np_min xs = Inr (Min (set xs))"
proof (cases xs)
  case Nil
  with assms show ?thesis by simp
next
  case (Cons v vs)
  have "fold min vs v = Min (set (v # vs))" by (rule Min.set_eq_fold [symmetric])
  then show ?thesis by (simp only: Cons np_min_def list.case)
qed

lemma set_true_positions:
  "set (true_positions c) = {(i, j). i < length c \<and> j < length (c ! i) \<and> c ! i ! j}"
proof (rule set_eqI)
  fix p :: "nat \<times> nat"
  obtain i j where p: "p = (i, j)" by (cases p)
  have "(i, j) \<in> set (true_positions c)
        \<longleftrightarrow> (\<exists>row. (i, row) \<in> set (enumerate 0 c) \<and> (j, True) \<in> set (enumerate 0 row))"
    unfolding true_positions_def by force
  also have "\<dots> \<longleftrightarrow> i < length c \<and> j < length (c ! i) \<and> c ! i ! j"
    by (auto simp add: in_set_enumerate_eq)
  finally show "p \<in> set (true_positions c)
                \<longleftrightarrow> p \<in> {(i, j). i < length c \<and> j < length (c ! i) \<and> c ! i ! j}"
    by (simp add: p)
qed

lemma where_rows_qualifying:
  "set (fst (np_where (map (map (\<lambda>v. Max (set (concat psf)) / 2 \<le> v)) psf))) = fst ` spec_qualifying psf"
proof -
  have "set (true_positions (map (map (\<lambda>v. Max (set (concat psf)) / 2 \<le> v)) psf)) = spec_qualifying psf"
    unfolding set_true_positions spec_qualifying_def by auto
  then show ?thesis by (simp add: np_where_def)
qed

lemma max_attained:
  assumes "concat psf \<noteq> []"
  shows "\<exists>i j. i < length psf \<and> j < length (psf ! i) \<and> psf ! i ! j = Max (set (concat psf))"
proof -
  have "Max (set (concat psf)) \<in> set (concat psf)"
    using assms by (intro Max_in) simp_all
  then obtain row where row: "row \<in> set psf" "Max (set (concat psf)) \<in> set row"
    by auto
  then obtain i j where "i < length psf" "psf ! i = row" "j < length row" "row ! j = Max (set (concat psf))"
    by (metis in_set_conv_nth)
  then show ?thesis by blast
qed

lemma element_le_max:
  assumes "i < length psf" "j < length (psf ! i)"
  shows "psf ! i ! j \<le> Max (set (concat psf))"
proof -
  have "psf ! i \<in> set psf" and "psf ! i ! j \<in> set (psf ! i)"
    using assms by simp_all
  then have "psf ! i ! j \<in> set (concat psf)" by auto
  then show ?thesis by simp
qed

lemma qualifying_nonempty:
  assumes "concat psf \<noteq> []" "0 \<le> Max (set (concat psf))"
  shows "spec_qualifying psf \<noteq> {}"
proof -
  obtain i j where ij: "i < length psf" "j < length (psf ! i)" "psf ! i ! j = Max (set (concat psf))"
    using max_attained [OF assms(1)] by blast
  have "Max (set (concat psf)) / 2 \<le> psf ! i ! j" using assms(2) ij(3) by simp
  then have "(i, j) \<in> spec_qualifying psf" using ij by (simp add: spec_qualifying_def)
  then show ?thesis by blast
qed

lemma qualifying_empty:
  assumes "Max (set (concat psf)) < 0"
  shows "spec_qualifying psf = {}"
proof -
  have "\<not> Max (set (concat psf)) / 2 \<le> psf ! i ! j" if "i < length psf" "j < length (psf ! i)" for i j
    using element_le_max [OF that] assms by simp
  then show ?thesis by (auto simp add: spec_qualifying_def)
qed

lemma qualifying_rows_bounded: "fst ` spec_qualifying psf \<subseteq> {..<length psf}"
  by (auto simp add: spec_qualifying_def)

lemma qualifying_rows_finite: "finite (fst ` spec_qualifying psf)"
  using qualifying_rows_bounded finite_lessThan by (rule finite_subset)

lemma fwhm_unfold:
  "fwhm psf =
    (if concat psf = [] then
       Inl (ValueError [Lit ''zero-size array to reduction operation maximum which has no identity''])
     else if spec_qualifying psf = {} then
       Inl (ValueError [Lit ''zero-size array to reduction operation maximum which has no identity''])
     else Inr (int (Max (fst ` spec_qualifying psf)) - int (Min (fst ` spec_qualifying psf))))"
proof (cases "concat psf = []")
  case True
  then show ?thesis by (simp only: fwhm_def np_max_def list.case sum.case if_True refl)
next
  case False
  let ?rows = "fst (np_where (map (map (\<lambda>v. Max (set (concat psf)) / 2 \<le> v)) psf))"
  have rows: "set ?rows = fst ` spec_qualifying psf" by (rule where_rows_qualifying)
  have unfold: "fwhm psf = (case np_max ?rows of Inl e \<Rightarrow> Inl e
                 | Inr hi \<Rightarrow> (case np_min ?rows of Inl e \<Rightarrow> Inl e | Inr lo \<Rightarrow> Inr (int hi - int lo)))"
    by (simp only: fwhm_def np_max_Max [OF False] Let_def sum.case)
  show ?thesis
  proof (cases "spec_qualifying psf = {}")
    case True
    then have "?rows = []" using rows by simp
    then show ?thesis using False True by (simp add: unfold np_max_def)
  next
    case nonempty: False
    then have ne: "?rows \<noteq> []" using rows by auto
    have hi: "np_max ?rows = Inr (Max (fst ` spec_qualifying psf))"
      using np_max_Max [OF ne] by (simp only: rows)
    have lo: "np_min ?rows = Inr (Min (fst ` spec_qualifying psf))"
      using np_min_Min [OF ne] by (simp only: rows)
    show ?thesis using False nonempty
      by (simp only: unfold hi lo sum.case if_False)
  qed
qed


lemma all_zero_max:
  assumes "concat psf \<noteq> []" "\<forall>v \<in> set (concat psf). v = (0::real)"
  shows "Max (set (concat psf)) = 0"
proof -
  have "Max (set (concat psf)) \<in> set (concat psf)"
    using assms(1) by (intro Max_in) simp_all
  with assms(2) show ?thesis by blast
qed

lemma rectangular_rows_nonempty:
  assumes "rectangular psf" "concat psf \<noteq> []" "i < length psf"
  shows "psf ! i \<noteq> []"
proof -
  have same: "length row = length (hd psf)" if "row \<in> set psf" for row
    using assms(1) that by (simp add: rectangular_def list_all_iff)
  obtain row where row: "row \<in> set psf" "row \<noteq> []"
    using assms(2) by auto
  have "length (psf ! i) = length row"
    using same [OF row(1)] same [of "psf ! i"] assms(3) by simp
  with row(2) show ?thesis by auto
qed

lemma all_zero_rows:
  assumes "rectangular psf" "concat psf \<noteq> []" "\<forall>v \<in> set (concat psf). v = (0::real)"
  shows "fst ` spec_qualifying psf = {..<length psf}"
proof
  show "fst ` spec_qualifying psf \<subseteq> {..<length psf}" by (rule qualifying_rows_bounded)
  show "{..<length psf} \<subseteq> fst ` spec_qualifying psf"
  proof
    fix i assume "i \<in> {..<length psf}"
    then have i: "i < length psf" by simp
    then have "psf ! i \<noteq> []" by (rule rectangular_rows_nonempty [OF assms(1,2)])
    then have j: "0 < length (psf ! i)" by simp
    have "psf ! i \<in> set psf" and "psf ! i ! 0 \<in> set (psf ! i)" using i j by simp_all
    then have "psf ! i ! 0 \<in> set (concat psf)" by auto
    then have "psf ! i ! 0 = 0" using assms(3) by blast
    moreover note all_zero_max [OF assms(2,3)]
    ultimately have "Max (set (concat psf)) / 2 \<le> psf ! i ! 0" by (simp only:)
    then have "(i, 0) \<in> spec_qualifying psf"
      using i j unfolding spec_qualifying_def by blast
    then show "i \<in> fst ` spec_qualifying psf" by force
  qed
qed

text \<open>
  C1 as stated (for every non-empty, not all-zero field the result is strictly positive and
  less than the side length) fails: a field whose half-maximum positions lie in one row has
  span 0.
\<close>

theorem fwhm_single_peak_counterexample:
  "fwhm [[0, 0, 0], [0, 1, 0], [0, 0, 0]] = Inr 0"
  by (simp add: fwhm_def np_max_def np_min_def np_where_def true_positions_def)

text \<open>
  C1, amended. For every non-empty field whose maximum is non-negative, \<open>fwhm\<close> returns an
  integer \<open>r\<close> with \<open>0 \<le> r\<close> and \<open>r\<close> less than the number of rows; \<open>r\<close> is positive
  exactly when the positions at or above half the maximum lie in at least two rows.
\<close>

theorem fwhm_bounds:
  assumes "concat psf \<noteq> []" and "0 \<le> Max (set (concat psf))"
  shows "\<exists>r. fwhm psf = Inr r \<and> 0 \<le> r \<and> r < int (length psf)
           \<and> (0 < r \<longleftrightarrow> (\<exists>p \<in> spec_qualifying psf. \<exists>q \<in> spec_qualifying psf. fst p \<noteq> fst q))"
proof -
  let ?R = "fst ` spec_qualifying psf"
  have ne: "?R \<noteq> {}" using qualifying_nonempty [OF assms] by simp
  have fin: "finite ?R" by (rule qualifying_rows_finite)
  have order: "Min ?R \<le> Max ?R" using fin ne by simp
  have "Max ?R \<in> ?R" using fin ne by (rule Max_in)
  then have below: "Max ?R < length psf" using qualifying_rows_bounded by blast
  have two_rows: "Min ?R < Max ?R \<longleftrightarrow> (\<exists>p \<in> spec_qualifying psf. \<exists>q \<in> spec_qualifying psf. fst p \<noteq> fst q)"
  proof
    assume "Min ?R < Max ?R"
    moreover have "Min ?R \<in> ?R" and "Max ?R \<in> ?R"
      using fin ne by (rule Min_in, rule Max_in)
    ultimately show "\<exists>p \<in> spec_qualifying psf. \<exists>q \<in> spec_qualifying psf. fst p \<noteq> fst q"
      by (metis (no_types, lifting) image_iff less_irrefl)
  next
    assume "\<exists>p \<in> spec_qualifying psf. \<exists>q \<in> spec_qualifying psf. fst p \<noteq> fst q"
    then obtain p q where pq: "p \<in> spec_qualifying psf" "q \<in> spec_qualifying psf" "fst p \<noteq> fst q"
      by blast
    have "Min ?R \<le> fst p" "fst p \<le> Max ?R" "Min ?R \<le> fst q" "fst q \<le> Max ?R"
      using fin pq(1,2) by simp_all
    with pq(3) show "Min ?R < Max ?R" by linarith
  qed
  have span: "fwhm psf = Inr (int (Max ?R) - int (Min ?R))"
    using assms(1) qualifying_nonempty [OF assms] by (simp only: fwhm_unfold if_False)
  have "0 \<le> int (Max ?R) - int (Min ?R)" using order by simp
  moreover have "int (Max ?R) - int (Min ?R) < int (length psf)" using below by simp
  moreover have "0 < int (Max ?R) - int (Min ?R)
      \<longleftrightarrow> (\<exists>p \<in> spec_qualifying psf. \<exists>q \<in> spec_qualifying psf. fst p \<noteq> fst q)"
    using two_rows by simp
  ultimately show ?thesis using span by blast
qed

theorem fwhm_bounds_witness:
  "concat [[0, 1/2, 0], [1/2, 1, 1/2], [0, 1/2, 0 :: real]] \<noteq> []
   \<and> 0 \<le> Max (set (concat [[0, 1/2, 0], [1/2, 1, 1/2], [0, 1/2, 0 :: real]]))
   \<and> fwhm [[0, 1/2, 0], [1/2, 1, 1/2], [0, 1/2, 0]] = Inr 2
   \<and> (0::int) \<le> 2 \<and> (2::int) < int (length [[0, 1/2, 0], [1/2, 1, 1/2], [0, 1/2, 0 :: real]])"
proof -
  have ne: "concat [[0, 1/2, 0], [1/2, 1, 1/2], [0, 1/2, 0 :: real]] \<noteq> []" by simp
  have mx: "0 \<le> Max (set (concat [[0, 1/2, 0], [1/2, 1, 1/2], [0, 1/2, 0 :: real]]))" by simp
  have v: "fwhm [[0, 1/2, 0], [1/2, 1, 1/2], [0, 1/2, 0]] = Inr 2"
    by (simp add: fwhm_def np_max_def np_min_def np_where_def true_positions_def)
  obtain r where "fwhm [[0, 1/2, 0], [1/2, 1, 1/2], [0, 1/2, 0]] = Inr r" "0 \<le> r"
      "r < int (length [[0, 1/2, 0], [1/2, 1, 1/2], [0, 1/2, 0 :: real]])"
    using fwhm_bounds [OF ne mx] by blast
  with v ne mx show ?thesis by simp
qed

text \<open>
  C2 as stated (an all-zero field is reported as an error, never as a number) fails: the
  half maximum is 0, every position qualifies and the result is a number.
\<close>

theorem fwhm_all_zero_counterexample:
  "fwhm [[0, 0], [0, 0]] = Inr 1"
  by (simp add: fwhm_def np_max_def np_min_def np_where_def true_positions_def)

text \<open>
  C2, amended. For every all-zero field with at least one element (and rows of one
  length), \<open>fwhm\<close> raises nothing and returns the number of rows minus one.
\<close>

theorem fwhm_all_zero:
  assumes "rectangular psf" and "concat psf \<noteq> []" and "\<forall>v \<in> set (concat psf). v = 0"
  shows "fwhm psf = Inr (int (length psf) - 1)"
proof -
  have rows: "fst ` spec_qualifying psf = {..<length psf}"
    using assms by (rule all_zero_rows)
  have n: "0 < length psf" using assms(2) by auto
  then have ne: "{..<length psf} \<noteq> {}" by auto
  have last: "Max {..<length psf} = length psf - 1"
    using n by (intro Max_eqI) auto
  have first: "Min {..<length psf} = 0"
    using n by (intro Min_eqI) auto
  have q: "spec_qualifying psf \<noteq> {}" using rows ne by auto
  have "fwhm psf = Inr (int (Max (fst ` spec_qualifying psf)) - int (Min (fst ` spec_qualifying psf)))"
    using assms(2) q by (simp only: fwhm_unfold if_False)
  then show ?thesis using n by (simp add: rows last first of_nat_diff)
qed

theorem fwhm_all_zero_witness:
  "rectangular [[0, 0], [0, 0], [0, 0 :: real]]
   \<and> concat [[0, 0], [0, 0], [0, 0 :: real]] \<noteq> []
   \<and> set (concat [[0, 0], [0, 0], [0, 0 :: real]]) = {0}
   \<and> fwhm [[0, 0], [0, 0], [0, 0]] = Inr 2"
proof -
  have r: "rectangular [[0, 0], [0, 0], [0, 0 :: real]]" by (simp add: rectangular_def)
  have ne: "concat [[0, 0], [0, 0], [0, 0 :: real]] \<noteq> []" by simp
  have z: "\<forall>v \<in> set (concat [[0, 0], [0, 0], [0, 0 :: real]]). v = 0" by simp
  from r ne z fwhm_all_zero [OF r ne z] show ?thesis by simp
qed

text \<open>
  Outside the fields the pipeline produces: where the maximum of a non-empty array is
  negative, half of it is larger than every element, no position qualifies and
  \<^verbatim>\<open>np.max\<close> of the empty index array raises.
\<close>

lemma fwhm_negative_max:
  assumes "concat psf \<noteq> []" and "Max (set (concat psf)) < 0"
  shows "fwhm psf = Inl (ValueError
           [Lit ''zero-size array to reduction operation maximum which has no identity''])"
  using assms(1) qualifying_empty [OF assms(2)]
  by (simp only: fwhm_unfold if_False if_True refl)

lemma nonneg_field_max:
  assumes "concat psf \<noteq> []" and "\<forall>v \<in> set (concat psf). (0::real) \<le> v"
  shows "0 \<le> Max (set (concat psf))"
proof -
  have "Max (set (concat psf)) \<in> set (concat psf)"
    using assms(1) by (intro Max_in) simp_all
  with assms(2) show ?thesis by blast
qed

text \<open>
  C4. For every non-empty 2D field (an intensity field: its values are non-negative),
  \<open>fwhm\<close> returns the largest minus the smallest first-axis index over all grid
  positions whose value is greater than or equal to half the maximum of the field; the
  result is an index span in grid units, not a physical length.
\<close>

theorem fwhm_row_span:
  assumes "concat psf \<noteq> []" and "\<forall>v \<in> set (concat psf). 0 \<le> v"
  shows "fwhm psf
         = Inr (int (Max (fst ` spec_qualifying psf)) - int (Min (fst ` spec_qualifying psf)))"
proof -
  have "0 \<le> Max (set (concat psf))" using assms by (rule nonneg_field_max)
  then have "spec_qualifying psf \<noteq> {}" by (rule qualifying_nonempty [OF assms(1)])
  with assms(1) show ?thesis by (simp only: fwhm_unfold if_False)
qed

theorem fwhm_row_span_witness:
  "concat [[0, 1/2, 0], [1/2, 1, 1/2], [0, 0, 0 :: real]] \<noteq> []
   \<and> fwhm [[0, 1/2, 0], [1/2, 1, 1/2], [0, 0, 0]] = Inr 1
   \<and> int (Max (fst ` spec_qualifying [[0, 1/2, 0], [1/2, 1, 1/2], [0, 0, 0]]))
       - int (Min (fst ` spec_qualifying [[0, 1/2, 0], [1/2, 1, 1/2], [0, 0, 0]])) = 1"
proof -
  have ne: "concat [[0, 1/2, 0], [1/2, 1, 1/2], [0, 0, 0 :: real]] \<noteq> []" by simp
  have nonneg: "\<forall>v \<in> set (concat [[0, 1/2, 0], [1/2, 1, 1/2], [0, 0, 0 :: real]]). 0 \<le> v"
    by simp
  have v: "fwhm [[0, 1/2, 0], [1/2, 1, 1/2], [0, 0, 0]] = Inr 1"
    by (simp add: fwhm_def np_max_def np_min_def np_where_def true_positions_def)
  have span: "int (Max (fst ` spec_qualifying [[0, 1/2, 0], [1/2, 1, 1/2], [0, 0, 0]]))
       - int (Min (fst ` spec_qualifying [[0, 1/2, 0], [1/2, 1, 1/2], [0, 0, 0]])) = 1"
    using fwhm_row_span [OF ne nonneg] v by simp
  from ne v span show ?thesis by blast
qed

end
